theory Spec2Isabelle
  imports Main "HOL-Library.Word" "HOL-Library.AList"
begin

section \<open>Python values\<close>

text \<open>
  The values that reach \<^verbatim>\<open>template_evaluation.py\<close>. The three classes of the
  \<^verbatim>\<open>datetime\<close> module are kept apart, because \<^verbatim>\<open>_unixtime\<close> dispatches on
  them with \<^verbatim>\<open>isinstance\<close>. A float is carried as its IEEE 754 binary64 bit pattern:
  no arithmetic on floats is modelled. A function object is named by the name of its
  \<^verbatim>\<open>def\<close>. Values are immutable; the only mutable objects are the dictionaries of
  the store further down.
\<close>

datatype error =
    AttributeError
  | TypeError
  | ValueError
  | OverflowError
  | SyntaxError
  | NameNotDefined
  | FunctionNotDefined
  | OtherError string

datatype date = Date int int int

datatype time = Time int int int int

datatype datetime = Datetime date time

datatype pyval =
    PNone
  | PBool bool
  | PInt int
  | PFloat "64 word"
  | PStr string
  | PDate date
  | PTime time
  | PDatetime datetime
  | PTimedelta int int int
  | PFunc string
  | PDict "(string \<times> pyval) list"

section \<open>Slicing, \<^verbatim>\<open>_start\<close> and \<^verbatim>\<open>_end\<close>\<close>

text \<open>
  Python's \<^verbatim>\<open>s[lo:hi]\<close> with step 1. A bound that is negative counts from the end,
  and every bound is clamped into \<open>0 .. len(s)\<close>; a slice never raises. A missing bound
  is \<open>None\<close>. Sequences are lists of any element type: for a \<^verbatim>\<open>str\<close> the elements
  are its code points.
\<close>

definition adjust_index :: "nat \<Rightarrow> int \<Rightarrow> nat" where
  "adjust_index len i =
     (if i < 0 then (if i + int len < 0 then 0 else nat (i + int len))
      else (if int len \<le> i then len else nat i))"

definition slice :: "'a list \<Rightarrow> int option \<Rightarrow> int option \<Rightarrow> 'a list" where
  "slice s lo hi =
     (let a = (case lo of None \<Rightarrow> 0 | Some i \<Rightarrow> adjust_index (length s) i);
          b = (case hi of None \<Rightarrow> length s | Some j \<Rightarrow> adjust_index (length s) j)
      in if a < b then take (b - a) (drop a s) else [])"

text \<open>\<^verbatim>\<open>def _end(s: str, num: int): return s[-abs(num):]\<close>\<close>

definition end_fn :: "'a list \<Rightarrow> int \<Rightarrow> 'a list" where
  "end_fn s num = slice s (Some (- \<bar>num\<bar>)) None"

text \<open>\<^verbatim>\<open>def _start(s: str, num: int): return s[0:num]\<close>\<close>

definition start :: "'a list \<Rightarrow> int \<Rightarrow> 'a list" where
  "start s num = slice s (Some 0) (Some num)"

section \<open>The store of dictionary objects\<close>

text \<open>
  The bindings of a \<^verbatim>\<open>dict\<close> are a list of pairs in insertion order, with one pair
  for a key; \<open>map_of\<close> looks a key up. \<^verbatim>\<open>d.update(e)\<close> goes through the pairs of
  \<open>e\<close> in order: the value of a key that \<open>d\<close> has is replaced in place, a new key
  goes to the end.
\<close>

type_synonym dict = "(string \<times> pyval) list"

definition dict_merge :: "dict \<Rightarrow> dict \<Rightarrow> dict" where
  "dict_merge d e = fold (\<lambda>(k, v). AList.update k v) e d"

text \<open>
  A \<^verbatim>\<open>dict\<close> is a mutable object: the store maps the address of each dictionary to its
  bindings, and \<open>next_addr\<close> is the next address to hand out. \<^verbatim>\<open>d.copy()\<close> allocates
  a new dictionary with the same bindings; \<^verbatim>\<open>d.update(e)\<close> rebinds in place.
\<close>

type_synonym addr = nat

record heap =
  objs :: "addr \<Rightarrow> dict option"
  next_addr :: addr

definition dict_copy :: "dict \<Rightarrow> heap \<Rightarrow> addr \<times> heap" where
  "dict_copy d h =
     (next_addr h, h\<lparr>objs := (objs h)(next_addr h \<mapsto> d), next_addr := Suc (next_addr h)\<rparr>)"

definition dict_update :: "addr \<Rightarrow> dict \<Rightarrow> heap \<Rightarrow> heap" where
  "dict_update a e h =
     (case objs h a of
        None \<Rightarrow> h
      | Some d \<Rightarrow> h\<lparr>objs := (objs h)(a \<mapsto> dict_merge d e)\<rparr>)"

section \<open>What the module takes from outside\<close>

text \<open>
  \<^verbatim>\<open>simpleeval\<close>, \<^verbatim>\<open>dateutil\<close>, the clock and \<^verbatim>\<open>str\<close> are not code of this
  repository; they are parameters of the model.
  \<^item> \<open>simple_eval\<close> is \<^verbatim>\<open>simpleeval.simple_eval(s, functions=f, names=c)\<close>: it is
    handed the addresses of the two dictionaries and the store, and returns a value or
    an error, and the store it leaves.
  \<^item> \<open>DEFAULT_FUNCTIONS\<close> and \<open>DEFAULT_NAMES\<close> are the bindings of simpleeval's two
    module-level dictionaries.
  \<^item> \<open>now k\<close> is what the \<open>k\<close>-th call of \<^verbatim>\<open>datetime.datetime.now()\<close> returns.
  \<^item> \<open>parse\<close> is \<^verbatim>\<open>dateutil.parser.parse\<close>; \<open>timestamp\<close> is
    \<^verbatim>\<open>datetime.datetime.timestamp\<close>, a float or an error of the platform.
  \<^item> \<open>py_str\<close> is the builtin \<^verbatim>\<open>str\<close>.
\<close>

record env =
  simple_eval :: "string \<Rightarrow> addr \<Rightarrow> addr \<Rightarrow> heap \<Rightarrow> (error + pyval) \<times> heap"
  DEFAULT_FUNCTIONS :: dict
  DEFAULT_NAMES :: dict
  now :: "nat \<Rightarrow> datetime"
  parse :: "string \<Rightarrow> error + datetime"
  timestamp :: "datetime \<Rightarrow> error + 64 word"
  py_str :: "pyval \<Rightarrow> string"

section \<open>\<^verbatim>\<open>_unixtime\<close>\<close>

text \<open>
  \<^verbatim>\<open>isinstance(s, datetime.date)\<close> holds of a \<^verbatim>\<open>date\<close> and of a \<^verbatim>\<open>datetime\<close>,
  which is a subclass of \<^verbatim>\<open>date\<close>; \<^verbatim>\<open>isinstance(s, datetime.time)\<close> holds of a
  \<^verbatim>\<open>time\<close> only.
\<close>

fun isinstance_str :: "pyval \<Rightarrow> bool" where
  "isinstance_str (PStr _) = True"
| "isinstance_str _ = False"

fun isinstance_time :: "pyval \<Rightarrow> bool" where
  "isinstance_time (PTime _) = True"
| "isinstance_time _ = False"

fun isinstance_date :: "pyval \<Rightarrow> bool" where
  "isinstance_date (PDate _) = True"
| "isinstance_date (PDatetime _) = True"
| "isinstance_date _ = False"

text \<open>
  The method call \<^verbatim>\<open>s.timestamp()\<close>. Of the classes of the \<^verbatim>\<open>datetime\<close> module
  only \<^verbatim>\<open>datetime\<close> defines \<^verbatim>\<open>timestamp\<close>; on every other value the attribute
  lookup raises \<^verbatim>\<open>AttributeError\<close>.
\<close>

fun timestamp_method :: "env \<Rightarrow> pyval \<Rightarrow> error + pyval" where
  "timestamp_method X (PDatetime d) =
     (case timestamp X d of Inl e \<Rightarrow> Inl e | Inr f \<Rightarrow> Inr (PFloat f))"
| "timestamp_method X _ = Inl AttributeError"

text \<open>
  \<^verbatim>\<open>
  def _unixtime(s):
      if isinstance(s, str):
          return parse(s).timestamp()
      if isinstance(s, datetime.time) or isinstance(s, datetime.date):
          return s.timestamp()
      return s
  \<close>
\<close>

definition unixtime :: "env \<Rightarrow> pyval \<Rightarrow> error + pyval" where
  "unixtime X s =
     (case s of
        PStr t \<Rightarrow>
          (case parse X t of
             Inl e \<Rightarrow> Inl e
           | Inr d \<Rightarrow> timestamp_method X (PDatetime d))
      | _ \<Rightarrow>
          if isinstance_time s \<or> isinstance_date s then timestamp_method X s
          else Inr s)"

section \<open>\<^verbatim>\<open>eval_expression\<close>\<close>

text \<open>
  The ten keyword arguments of \<^verbatim>\<open>functions.update(...)\<close>: each name of the expression
  language is bound to the function object of the module.
\<close>

definition domain_functions :: dict where
  "domain_functions =
     [(''unixtime'', PFunc ''_unixtime''),
      (''datetime_format'', PFunc ''_datetime_format''),
      (''starts_with'', PFunc ''_starts_with''),
      (''ends_with'', PFunc ''_ends_with''),
      (''start'', PFunc ''_start''),
      (''end'', PFunc ''_end''),
      (''timedelta_days'', PFunc ''_timedelta_days''),
      (''timedelta_hours'', PFunc ''_timedelta_hours''),
      (''timedelta_minutes'', PFunc ''_timedelta_minutes''),
      (''timedelta_seconds'', PFunc ''_timedelta_seconds'')]"

text \<open>
  Lines 52 to 72 of \<^verbatim>\<open>eval_expression\<close>, which build the two dictionaries handed to
  \<^verbatim>\<open>simple_eval\<close>:
  \<^verbatim>\<open>
  functions = DEFAULT_FUNCTIONS.copy()
  functions.update(unixtime=_unixtime, ...)
  names_combined = DEFAULT_NAMES.copy()
  names_combined.update(now=datetime.datetime.now())
  if names:
       names_combined.update(names)
  \<close>
  The argument \<open>names\<close> is \<open>None\<close> or the address of the caller's dictionary; it is
  true when it is a dictionary with at least one binding. \<open>k\<close> is the number of
  clock readings taken so far. The result is the address of \<open>functions\<close>, the address
  of \<open>names_combined\<close> and the store.
\<close>

definition build_registry :: "env \<Rightarrow> addr option \<Rightarrow> nat \<Rightarrow> heap \<Rightarrow> addr \<times> addr \<times> heap" where
  "build_registry X names k h =
     (let (functions, h1) = dict_copy (DEFAULT_FUNCTIONS X) h;
          h2 = dict_update functions domain_functions h1;
          (names_combined, h3) = dict_copy (DEFAULT_NAMES X) h2;
          h4 = dict_update names_combined [(''now'', PDatetime (now X k))] h3;
          h5 = (case names of
                  None \<Rightarrow> h4
                | Some a \<Rightarrow>
                    (case objs h4 a of
                       None \<Rightarrow> h4
                     | Some d \<Rightarrow>
                         if d = [] then h4 else dict_update names_combined d h4))
      in (functions, names_combined, h5))"

text \<open>
  The state of a run: the store, and the number of clock readings taken so far.
  \<^verbatim>\<open>eval_expression\<close> builds the registry, which reads the clock once, and returns
  what \<^verbatim>\<open>simple_eval(s, functions=functions, names=names_combined)\<close> returns.
\<close>

type_synonym world = "heap \<times> nat"

definition eval_expression ::
    "env \<Rightarrow> string \<Rightarrow> addr option \<Rightarrow> world \<Rightarrow> (error + pyval) \<times> world" where
  "eval_expression X s names w =
     (case w of (h, k) \<Rightarrow>
        (case build_registry X names k h of (functions, names_combined, h') \<Rightarrow>
           (case simple_eval X s functions names_combined h' of (r, h'') \<Rightarrow>
              (r, (h'', Suc k)))))"

section \<open>\<^verbatim>\<open>re.sub\<close> with the pattern of \<^verbatim>\<open>eval_template\<close>\<close>

text \<open>
  The pattern is \<^verbatim>\<open>\{\{([^\}]*)\}\}\<close>. \<open>pattern_match\<close> is the match anchored at the
  head of the input: two opening braces, the longest run of characters other than
  \<^verbatim>\<open>}\<close> (group 1), two closing braces. A shorter run cannot match, since the
  character after it is not a closing brace. The result is group 1 and the input after
  the match. A template is a list of bytes; the two braces are ASCII, so they never
  stand inside the encoding of another character.
\<close>

fun pattern_match :: "string \<Rightarrow> (string \<times> string) option" where
  "pattern_match (c1 # c2 # t) =
     (if c1 = CHR ''{'' \<and> c2 = CHR ''{'' then
        (case dropWhile (\<lambda>c. c \<noteq> CHR ''}'') t of
           d1 # d2 # rest \<Rightarrow>
             if d1 = CHR ''}'' \<and> d2 = CHR ''}''
             then Some (takeWhile (\<lambda>c. c \<noteq> CHR ''}'') t, rest)
             else None
         | _ \<Rightarrow> None)
      else None)"
| "pattern_match _ = None"

text \<open>
  \<open>pattern_search\<close> is the search for the leftmost match: the text before the match,
  group 1, and the input after the match.
\<close>

fun pattern_search :: "string \<Rightarrow> (string \<times> string \<times> string) option" where
  "pattern_search [] = None"
| "pattern_search (c # cs) =
     (case pattern_match (c # cs) of
        Some (body, rest) \<Rightarrow> Some ([], body, rest)
      | None \<Rightarrow>
          (case pattern_search cs of
             None \<Rightarrow> None
           | Some (pre, body, rest) \<Rightarrow> Some (c # pre, body, rest)))"

lemma pattern_match_shorter:
  "pattern_match s = Some (body, rest) \<Longrightarrow> length rest < length s"
proof (induction s rule: pattern_match.induct)
  case (1 c1 c2 t)
  have "length (dropWhile (\<lambda>c. c \<noteq> CHR ''}'') t) \<le> length t"
    by (rule length_dropWhile_le)
  with 1 show ?case
    by (auto split: if_splits list.splits)
qed simp_all

lemma pattern_search_shorter:
  "pattern_search s = Some (pre, body, rest) \<Longrightarrow> length rest < length s"
proof (induction s arbitrary: pre)
  case Nil
  then show ?case by simp
next
  case (Cons c cs)
  show ?case
  proof (cases "pattern_match (c # cs)")
    case None
    with Cons.prems obtain pre' where "pattern_search cs = Some (pre', body, rest)"
      by (auto split: option.splits)
    from Cons.IH [OF this] show ?thesis by simp
  next
    case (Some m)
    with Cons.prems have "pattern_match (c # cs) = Some (body, rest)"
      by (cases m) simp
    then show ?thesis by (rule pattern_match_shorter)
  qed
qed

text \<open>
  \<^verbatim>\<open>re.sub(pattern, repl, s)\<close> with a function \<open>repl\<close>: search from the current
  position; with no match the rest of the input is copied and the loop ends; at a match
  the text before it is copied, \<open>repl\<close> is called on the match and its result is
  copied, and the search goes on after the match. An exception of \<open>repl\<close> ends the
  call. \<open>repl\<close> runs in a state \<open>'w\<close>.
\<close>

function re_sub ::
    "(string \<Rightarrow> 'w \<Rightarrow> (error + string) \<times> 'w) \<Rightarrow> string \<Rightarrow> 'w \<Rightarrow> (error + string) \<times> 'w" where
  "re_sub repl s w =
     (case pattern_search s of
        None \<Rightarrow> (Inr s, w)
      | Some (pre, body, rest) \<Rightarrow>
          (case repl body w of
             (Inl e, w1) \<Rightarrow> (Inl e, w1)
           | (Inr r, w1) \<Rightarrow>
               (case re_sub repl rest w1 of
                  (Inl e, w2) \<Rightarrow> (Inl e, w2)
                | (Inr out, w2) \<Rightarrow> (Inr (pre @ r @ out), w2))))"
  by pat_completeness auto
termination
  by (relation "measure (\<lambda>(repl, s, w). length s)")
     (auto dest: pattern_search_shorter)

section \<open>\<^verbatim>\<open>eval_template\<close>\<close>

text \<open>
  The function handed to \<^verbatim>\<open>re.sub\<close> is
  \<^verbatim>\<open>lambda m: str(eval_expression(m.group(1), names))\<close>.
\<close>

definition repl :: "env \<Rightarrow> addr option \<Rightarrow> string \<Rightarrow> world \<Rightarrow> (error + string) \<times> world" where
  "repl X names body w =
     (case eval_expression X body names w of
        (Inl e, w') \<Rightarrow> (Inl e, w')
      | (Inr v, w') \<Rightarrow> (Inr (py_str X v), w'))"

definition eval_template ::
    "env \<Rightarrow> string \<Rightarrow> addr option \<Rightarrow> world \<Rightarrow> (error + string) \<times> world" where
  "eval_template X s names w = re_sub (repl X names) s w"

section \<open>The regions of a template, one by one\<close>

text \<open>
  Three functions to state what a render does. \<open>regions s\<close> lists group 1 of the
  matches \<^verbatim>\<open>re.sub\<close> finds in \<open>s\<close>, from left to right.
\<close>

function regions :: "string \<Rightarrow> string list" where
  "regions s =
     (case pattern_search s of
        None \<Rightarrow> []
      | Some (pre, body, rest) \<Rightarrow> body # regions rest)"
  by pat_completeness auto
termination
  by (relation "measure length") (auto dest: pattern_search_shorter)

text \<open>
  \<open>eval_each\<close> calls \<^verbatim>\<open>eval_expression\<close> on each expression of a list, each call in
  the world the call before it left, and lists what the calls return. It goes on after
  a failure.
\<close>

fun eval_each :: "env \<Rightarrow> addr option \<Rightarrow> string list \<Rightarrow> world \<Rightarrow> (error + pyval) list" where
  "eval_each X names [] w = []"
| "eval_each X names (b # bs) w =
     (case eval_expression X b names w of (r, w') \<Rightarrow> r # eval_each X names bs w')"

text \<open>
  \<open>substitute s rs\<close> puts the strings \<open>rs\<close>, in order, in the place of the matches
  of \<open>s\<close>.
\<close>

function substitute :: "string \<Rightarrow> string list \<Rightarrow> string" where
  "substitute s rs =
     (case pattern_search s of
        None \<Rightarrow> s
      | Some (pre, body, rest) \<Rightarrow>
          (case rs of
             [] \<Rightarrow> s
           | r # rs' \<Rightarrow> pre @ r @ substitute rest rs'))"
  by pat_completeness auto
termination
  by (relation "measure (\<lambda>(s, rs). length s)") (auto dest: pattern_search_shorter)

text \<open>
  The region as the specification words it: the first \<^verbatim>\<open>{{\<close> and the next
  \<^verbatim>\<open>}}\<close>, the body being the shortest span that does not contain \<^verbatim>\<open>}}\<close>.
  \<open>upto_close\<close> splits its input at the first \<^verbatim>\<open>}}\<close>.
\<close>

fun upto_close :: "string \<Rightarrow> (string \<times> string) option" where
  "upto_close [] = None"
| "upto_close [c] = None"
| "upto_close (c # d # cs) =
     (if c = CHR ''}'' \<and> d = CHR ''}'' then Some ([], cs)
      else (case upto_close (d # cs) of
              None \<Rightarrow> None
            | Some (body, rest) \<Rightarrow> Some (c # body, rest)))"

fun spec_pattern_match :: "string \<Rightarrow> (string \<times> string) option" where
  "spec_pattern_match (c1 # c2 # t) =
     (if c1 = CHR ''{'' \<and> c2 = CHR ''{'' then upto_close t else None)"
| "spec_pattern_match _ = None"

section \<open>Conditions on the evaluator and on the caller's dictionary\<close>

text \<open>
  What the frame property asks of \<^verbatim>\<open>simple_eval\<close>, which is not code of this repository:
  it does not lower \<open>next_addr\<close>, and of the dictionaries that exist when it is called
  it changes at most the two it is handed.
\<close>

definition evaluator_frame :: "env \<Rightarrow> bool" where
  "evaluator_frame X \<longleftrightarrow>
     (\<forall>s f c h.
        next_addr h \<le> next_addr (snd (simple_eval X s f c h)) \<and>
        (\<forall>a. a < next_addr h \<and> a \<noteq> f \<and> a \<noteq> c \<longrightarrow>
             objs (snd (simple_eval X s f c h)) a = objs h a))"

text \<open>
  The dictionary the caller passed, when there is one, is allocated in \<open>h\<close> and has the
  bindings \<open>d\<close>.
\<close>

definition caller_kept :: "addr option \<Rightarrow> dict \<Rightarrow> heap \<Rightarrow> bool" where
  "caller_kept names d h =
     (case names of None \<Rightarrow> True | Some a \<Rightarrow> a < next_addr h \<and> objs h a = Some d)"

section \<open>A concrete environment for closed examples\<close>

text \<open>
  \<open>name_eval\<close> stands for \<^verbatim>\<open>simple_eval\<close> on an expression that is a single name:
  the value the names dictionary binds it to, else the value the functions dictionary
  binds it to, else \<^verbatim>\<open>NameNotDefined\<close>. It leaves the store as it is.
\<close>

definition name_eval :: "string \<Rightarrow> addr \<Rightarrow> addr \<Rightarrow> heap \<Rightarrow> (error + pyval) \<times> heap" where
  "name_eval s f c h =
     (case objs h c of
        None \<Rightarrow> (Inl (OtherError ''names''), h)
      | Some d \<Rightarrow>
          (case map_of d s of
             Some v \<Rightarrow> (Inr v, h)
           | None \<Rightarrow>
               (case objs h f of
                  None \<Rightarrow> (Inl (OtherError ''functions''), h)
                | Some fd \<Rightarrow>
                    (case map_of fd s of
                       Some v \<Rightarrow> (Inr v, h)
                     | None \<Rightarrow> (Inl NameNotDefined, h)))))"

text \<open>A clock that advances by one second from one reading to the next.\<close>

definition demo_now :: "nat \<Rightarrow> datetime" where
  "demo_now k = Datetime (Date 2024 1 1) (Time 0 0 (int k) 0)"

text \<open>\<^verbatim>\<open>str\<close> on the values of the examples.\<close>

definition demo_str :: "pyval \<Rightarrow> string" where
  "demo_str v =
     (if v = PDatetime (demo_now 0) then ''2024-01-01 00:00:00''
      else if v = PDatetime (demo_now 1) then ''2024-01-01 00:00:01''
      else (case v of
              PStr s \<Rightarrow> s
            | PBool b \<Rightarrow> (if b then ''True'' else ''False'')
            | PNone \<Rightarrow> ''None''
            | _ \<Rightarrow> ''?''))"

definition demo_env :: env where
  "demo_env =
     \<lparr>simple_eval = name_eval,
      DEFAULT_FUNCTIONS =
        [(''rand'', PFunc ''random''), (''randint'', PFunc ''random_int''),
         (''int'', PFunc ''int''), (''float'', PFunc ''float''), (''str'', PFunc ''str'')],
      DEFAULT_NAMES = [(''True'', PBool True), (''False'', PBool False), (''None'', PNone)],
      now = demo_now,
      parse = (\<lambda>s. if s = ''2024-01-01T00:00:00Z''
                    then Inr (Datetime (Date 2024 1 1) (Time 0 0 0 0)) else Inl ValueError),
      timestamp = (\<lambda>d. if d = Datetime (Date 2024 1 1) (Time 0 0 0 0)
                        then Inr 0x41D9648020000000 else Inl OverflowError),
      py_str = demo_str\<rparr>"

text \<open>A store with no dictionary, and one holding a caller's dictionary at address 0.\<close>

definition empty_heap :: heap where
  "empty_heap = \<lparr>objs = Map.empty, next_addr = 0\<rparr>"

definition caller_heap :: "dict \<Rightarrow> heap" where
  "caller_heap d = \<lparr>objs = [0 \<mapsto> d], next_addr = 1\<rparr>"

section \<open>Properties of \<^verbatim>\<open>_start\<close> and \<^verbatim>\<open>_end\<close>\<close>

lemma adjust_index_le: "adjust_index len i \<le> len"
  unfolding adjust_index_def by auto

lemma adjust_index_neg: "i < 0 \<Longrightarrow> adjust_index len i = len - nat (- i)"
  unfolding adjust_index_def by auto

lemma adjust_index_nonneg: "0 \<le> i \<Longrightarrow> adjust_index len i = min len (nat i)"
  unfolding adjust_index_def by auto

lemma slice_from: "slice s (Some i) None = drop (adjust_index (length s) i) s"
  using adjust_index_le [of "length s" i]
  by (simp add: slice_def Let_def)

lemma slice_upto: "slice s (Some 0) (Some j) = take (adjust_index (length s) j) s"
  by (simp add: slice_def Let_def adjust_index_nonneg)

text \<open>
  Away from \<open>0\<close>, \<^verbatim>\<open>_end\<close> returns the last \<open>abs(num)\<close> elements, the whole
  sequence when it is shorter.
\<close>

lemma end_fn_nonzero:
  "n \<noteq> 0 \<Longrightarrow> end_fn s n = drop (length s - nat \<bar>n\<bar>) s"
  by (simp add: end_fn_def slice_from adjust_index_neg)

lemma end_fn_nonzero_length:
  "n \<noteq> 0 \<Longrightarrow> length (end_fn s n) = min (nat \<bar>n\<bar>) (length s)"
  by (auto simp: end_fn_nonzero)

lemma end_fn_zero: "end_fn s 0 = s"
  by (simp add: end_fn_def slice_from adjust_index_nonneg)

text \<open>
  C3. At \<open>num = 0\<close> the slice is \<^verbatim>\<open>s[-0:]\<close>, which is \<^verbatim>\<open>s[0:]\<close>: \<^verbatim>\<open>_end\<close> returns
  the whole of \<^verbatim>\<open>"abc"\<close>, three characters, where the last \<open>abs(0)\<close> characters
  are none and \<open>min(abs(0), len(s))\<close> is \<open>0\<close>.
\<close>

theorem end_fn_zero_returns_all:
  "end_fn ''abc'' 0 = ''abc'' \<and> length (end_fn ''abc'' 0) = 3 \<and>
   min (nat \<bar>0::int\<bar>) (length ''abc'') = 0"
  by (simp add: end_fn_zero)

text \<open>
  C10. For a negative \<open>n\<close>, \<^verbatim>\<open>_start(s, n)\<close> is \<open>s\<close> without its last \<open>abs(n)\<close>
  elements (nothing is left when \<open>s\<close> has no more than \<open>abs(n)\<close>); when \<open>abs(n)\<close> is
  less than the length of \<open>s\<close> the result is not empty and is shorter than \<open>s\<close>. The
  function is total: no input makes it fail.
\<close>

theorem start_negative:
  "n < 0 \<Longrightarrow>
     start s n = take (length s - nat \<bar>n\<bar>) s \<and>
     (nat \<bar>n\<bar> < length s \<longrightarrow> start s n \<noteq> [] \<and> length (start s n) < length s)"
  by (auto simp: start_def slice_upto adjust_index_neg)

theorem start_negative_witness:
  "(- 2 :: int) < 0 \<and> start ''abcdef'' (- 2) = ''abcd'' \<and>
   nat \<bar>- 2 :: int\<bar> < length ''abcdef'' \<and> start ''abcdef'' (- 2) \<noteq> [] \<and>
   length (start ''abcdef'' (- 2)) < length ''abcdef''"
  using start_negative [of "- 2" "''abcdef''"] by simp

section \<open>Properties of \<^verbatim>\<open>_unixtime\<close>\<close>

text \<open>
  C2. On a \<^verbatim>\<open>date\<close> that is not a \<^verbatim>\<open>datetime\<close>, and on a \<^verbatim>\<open>time\<close>,
  \<^verbatim>\<open>_unixtime\<close> takes the second branch and calls \<^verbatim>\<open>s.timestamp()\<close>, a method
  neither class has: the call raises \<^verbatim>\<open>AttributeError\<close> and no number is returned.
\<close>

theorem unixtime_date_or_time_raises:
  "unixtime X (PDate (Date 2024 1 1)) = Inl AttributeError \<and>
   unixtime X (PTime (Time 12 30 0 0)) = Inl AttributeError"
  by (simp add: unixtime_def)

text \<open>
  C7. A value that is not a \<^verbatim>\<open>str\<close>, not a \<^verbatim>\<open>time\<close> and not a \<^verbatim>\<open>date\<close> (so
  every number) is returned as it is, with no error.
\<close>

theorem unixtime_passthrough:
  "\<not> isinstance_str x \<Longrightarrow> \<not> isinstance_time x \<Longrightarrow> \<not> isinstance_date x \<Longrightarrow>
     unixtime X x = Inr x"
  by (cases x) (simp_all add: unixtime_def)

theorem unixtime_passthrough_witness:
  "\<not> isinstance_str (PInt 1704067200) \<and> \<not> isinstance_time (PInt 1704067200) \<and>
   \<not> isinstance_date (PInt 1704067200) \<and>
   unixtime demo_env (PInt 1704067200) = Inr (PInt 1704067200) \<and>
   unixtime demo_env (PFloat 0x41D9648020000000) = Inr (PFloat 0x41D9648020000000)"
  using unixtime_passthrough [of "PInt 1704067200" demo_env]
        unixtime_passthrough [of "PFloat 0x41D9648020000000" demo_env]
  by simp

section \<open>The regions \<^verbatim>\<open>re.sub\<close> finds\<close>

declare re_sub.simps [simp del] regions.simps [simp del] substitute.simps [simp del]

text \<open>
  The pattern matches at the head of \<open>s\<close> exactly when \<open>s\<close> is \<^verbatim>\<open>{{\<close>, a body with
  no \<^verbatim>\<open>}\<close> in it, and \<^verbatim>\<open>}}\<close>.
\<close>

lemma pattern_match_iff:
  "pattern_match s = Some (body, rest) \<longleftrightarrow>
     s = ''{{'' @ body @ ''}}'' @ rest \<and> CHR ''}'' \<notin> set body"
proof
  assume m: "pattern_match s = Some (body, rest)"
  then obtain t where s: "s = CHR ''{'' # CHR ''{'' # t"
    by (cases s rule: pattern_match.cases) (auto split: if_splits)
  let ?P = "\<lambda>c. c \<noteq> CHR ''}''"
  from m s have d: "dropWhile ?P t = CHR ''}'' # CHR ''}'' # rest"
    and b: "body = takeWhile ?P t"
    by (auto split: list.splits if_splits)
  have "t = takeWhile ?P t @ dropWhile ?P t" by simp
  with d b have "t = body @ ''}}'' @ rest" by simp
  moreover have "CHR ''}'' \<notin> set body"
    using b by (auto dest: set_takeWhileD)
  ultimately show "s = ''{{'' @ body @ ''}}'' @ rest \<and> CHR ''}'' \<notin> set body"
    using s by simp
next
  assume a: "s = ''{{'' @ body @ ''}}'' @ rest \<and> CHR ''}'' \<notin> set body"
  let ?P = "\<lambda>c. c \<noteq> CHR ''}''"
  from a have all: "\<forall>x\<in>set body. ?P x" by auto
  have t: "takeWhile ?P (body @ CHR ''}'' # CHR ''}'' # rest) = body"
    using all by (simp add: takeWhile_append2)
  have d: "dropWhile ?P (body @ CHR ''}'' # CHR ''}'' # rest) = CHR ''}'' # CHR ''}'' # rest"
    using all by (simp add: dropWhile_append2)
  from a have "s = CHR ''{'' # CHR ''{'' # (body @ CHR ''}'' # CHR ''}'' # rest)" by simp
  then show "pattern_match s = Some (body, rest)"
    using t d by simp
qed

lemma pattern_search_sound:
  "pattern_search s = Some (pre, body, rest) \<Longrightarrow>
     s = pre @ ''{{'' @ body @ ''}}'' @ rest \<and> CHR ''}'' \<notin> set body \<and>
     (\<forall>i<length pre. pattern_match (drop i s) = None)"
proof (induction s arbitrary: pre)
  case Nil
  then show ?case by simp
next
  case (Cons c cs)
  show ?case
  proof (cases "pattern_match (c # cs)")
    case (Some m)
    obtain b r where m: "m = (b, r)" by (cases m)
    from Cons.prems Some m have eqs: "pre = []" "b = body" "r = rest"
      by (simp_all del: pattern_match.simps)
    from Some m eqs have "pattern_match (c # cs) = Some (body, rest)"
      by (simp del: pattern_match.simps)
    then have "c # cs = ''{{'' @ body @ ''}}'' @ rest \<and> CHR ''}'' \<notin> set body"
      by (rule iffD1 [OF pattern_match_iff])
    with eqs(1) show ?thesis by simp
  next
    case None
    from Cons.prems None obtain pre' where p: "pattern_search cs = Some (pre', body, rest)"
      and pre: "pre = c # pre'"
      by (auto simp del: pattern_match.simps split: option.splits)
    note ih = Cons.IH [OF p]
    note ih1 = ih [THEN conjunct1]
    note ih2 = ih [THEN conjunct2, THEN conjunct1]
    note ih3 = ih [THEN conjunct2, THEN conjunct2]
    have none: "pattern_match (drop i (c # cs)) = None" if "i < length pre" for i
    proof (cases i)
      case 0
      then show ?thesis using None by (simp del: pattern_match.simps)
    next
      case (Suc j)
      with that pre have "j < length pre'" by simp
      with ih3 have "pattern_match (drop j cs) = None" by (simp del: pattern_match.simps)
      with Suc show ?thesis by (simp del: pattern_match.simps)
    qed
    from ih1 pre have "c # cs = pre @ ''{{'' @ body @ ''}}'' @ rest" by simp
    with ih2 none show ?thesis by (intro conjI allI impI)
  qed
qed

lemma pattern_search_complete:
  "pattern_match m = Some (body, rest) \<Longrightarrow>
   \<forall>i<length pre. pattern_match (drop i (pre @ m)) = None \<Longrightarrow>
   pattern_search (pre @ m) = Some (pre, body, rest)"
proof (induction pre)
  case Nil
  from Nil(1) have "m \<noteq> []" by (cases m) simp_all
  then obtain c cs where m: "m = c # cs" by (cases m) simp_all
  from Nil(1) have "pattern_search (c # cs) = Some ([], body, rest)"
    unfolding m by (simp del: pattern_match.simps)
  then show ?case unfolding m by (simp only: append_Nil)
next
  case (Cons p ps)
  have z: "0 < length (p # ps)" by simp
  from Cons.prems(2) [rule_format, OF z] have "pattern_match (drop 0 ((p # ps) @ m)) = None" .
  then have here: "pattern_match (p # (ps @ m)) = None"
    by (simp only: drop_0 append_Cons)
  have rest_none: "\<forall>i<length ps. pattern_match (drop i (ps @ m)) = None"
  proof (intro allI impI)
    fix i assume "i < length ps"
    then have "Suc i < length (p # ps)" by simp
    from Cons.prems(2) [rule_format, OF this]
    have "pattern_match (drop (Suc i) ((p # ps) @ m)) = None" .
    then show "pattern_match (drop i (ps @ m)) = None"
      by (simp only: append_Cons drop_Suc_Cons)
  qed
  from Cons.IH [OF Cons.prems(1) rest_none]
  have "pattern_search (ps @ m) = Some (ps, body, rest)" .
  with here have "pattern_search (p # (ps @ m)) = Some (p # ps, body, rest)"
    by (simp del: pattern_match.simps)
  then show ?case by (simp only: append_Cons)
qed

text \<open>
  The search finds the leftmost place where the pattern matches.
\<close>

lemma pattern_search_iff:
  "(pattern_search s = Some (pre, body, rest) \<longleftrightarrow>
     s = pre @ ''{{'' @ body @ ''}}'' @ rest \<and> CHR ''}'' \<notin> set body \<and>
     (\<forall>i<length pre. pattern_match (drop i s) = None))"
proof
  assume "pattern_search s = Some (pre, body, rest)"
  then show "s = pre @ ''{{'' @ body @ ''}}'' @ rest \<and> CHR ''}'' \<notin> set body \<and>
     (\<forall>i<length pre. pattern_match (drop i s) = None)"
    by (rule pattern_search_sound)
next
  assume a: "s = pre @ ''{{'' @ body @ ''}}'' @ rest \<and> CHR ''}'' \<notin> set body \<and>
     (\<forall>i<length pre. pattern_match (drop i s) = None)"
  then have "CHR ''}'' \<notin> set body" by (rule conjunct2 [THEN conjunct1])
  then have m: "pattern_match (''{{'' @ body @ ''}}'' @ rest) = Some (body, rest)"
    by (intro iffD2 [OF pattern_match_iff] conjI refl)
  from a have s: "s = pre @ ''{{'' @ body @ ''}}'' @ rest" by (rule conjunct1)
  from a have "\<forall>i<length pre. pattern_match (drop i s) = None"
    by (rule conjunct2 [THEN conjunct2])
  then have "\<forall>i<length pre. pattern_match (drop i (pre @ ''{{'' @ body @ ''}}'' @ rest)) = None"
    unfolding s .
  from pattern_search_complete [OF m this]
  have "pattern_search (pre @ ''{{'' @ body @ ''}}'' @ rest) = Some (pre, body, rest)" .
  then show "pattern_search s = Some (pre, body, rest)" unfolding s .
qed

section \<open>A render, region by region\<close>

text \<open>
  One step of \<^verbatim>\<open>eval_template\<close>: with no match the template is returned; at a match
  the expression is evaluated and the render goes on after the match.
\<close>

lemma eval_template_no_match:
  "pattern_search s = None \<Longrightarrow> eval_template X s names w = (Inr s, w)"
  by (simp add: eval_template_def re_sub.simps)

lemma eval_template_match:
  "pattern_search s = Some (pre, body, rest) \<Longrightarrow>
     eval_template X s names w =
       (case repl X names body w of
          (Inl e, w1) \<Rightarrow> (Inl e, w1)
        | (Inr r, w1) \<Rightarrow>
            (case eval_template X rest names w1 of
               (Inl e, w2) \<Rightarrow> (Inl e, w2)
             | (Inr out, w2) \<Rightarrow> (Inr (pre @ r @ out), w2)))"
  unfolding eval_template_def
  by (subst re_sub.simps) simp

lemma regions_no_match: "pattern_search s = None \<Longrightarrow> regions s = []"
  by (subst regions.simps) simp

lemma regions_match:
  "pattern_search s = Some (pre, body, rest) \<Longrightarrow> regions s = body # regions rest"
  by (subst regions.simps) simp

lemma substitute_no_match: "pattern_search s = None \<Longrightarrow> substitute s rs = s"
  by (subst substitute.simps) simp

lemma substitute_match:
  "pattern_search s = Some (pre, body, rest) \<Longrightarrow>
     substitute s (r # rs) = pre @ r @ substitute rest rs"
  by (subst substitute.simps) simp

text \<open>
  The whole render: the error of the first embedded expression that fails, or else the
  template with the \<^verbatim>\<open>str\<close> of each result in the place of its region.
\<close>

lemma eval_template_by_regions:
  "fst (eval_template X s names w) =
     (case find isl (eval_each X names (regions s) w) of
        Some r \<Rightarrow> Inl (projl r)
      | None \<Rightarrow>
          Inr (substitute s (map (\<lambda>r. py_str X (projr r)) (eval_each X names (regions s) w))))"
proof (induction "length s" arbitrary: s w rule: less_induct)
  case less
  show ?case
  proof (cases "pattern_search s")
    case None
    then show ?thesis
      by (simp add: eval_template_no_match regions_no_match substitute_no_match)
  next
    case (Some m)
    then obtain pre body rest where m: "pattern_search s = Some (pre, body, rest)"
      by (cases m) auto
    obtain r w1 where ev: "eval_expression X body names w = (r, w1)"
      by (cases "eval_expression X body names w")
    have shorter: "length rest < length s"
      using m by (rule pattern_search_shorter)
    note ih = less [OF shorter, of w1]
    show ?thesis
    proof (cases r)
      case (Inl e)
      with m ev show ?thesis
        by (simp add: eval_template_match regions_match repl_def)
    next
      case (Inr v)
      obtain q w2 where et: "eval_template X rest names w1 = (q, w2)"
        by (cases "eval_template X rest names w1")
      from ih et have q: "q =
        (case find isl (eval_each X names (regions rest) w1) of
           Some r \<Rightarrow> Inl (projl r)
         | None \<Rightarrow>
             Inr (substitute rest
                   (map (\<lambda>r. py_str X (projr r)) (eval_each X names (regions rest) w1))))"
        by simp
      from m ev Inr et have "fst (eval_template X s names w) =
        (case q of Inl e \<Rightarrow> Inl e | Inr out \<Rightarrow> Inr (pre @ py_str X v @ out))"
        by (simp add: eval_template_match repl_def split: sum.splits)
      with m ev Inr q show ?thesis
        by (simp add: regions_match substitute_match split: option.splits)
    qed
  qed
qed


text \<open>
  C4, as amended. \<^verbatim>\<open>eval_template\<close> recognises a region exactly where \<^verbatim>\<open>{{\<close> is
  followed by a run of characters other than \<^verbatim>\<open>}\<close> (the body, which may be empty)
  and then at once by \<^verbatim>\<open>}}\<close>: the body holds no \<^verbatim>\<open>}\<close> at all. Regions are
  found from left to right, the leftmost place where the pattern matches first, and
  the next region is looked for in the text after the closing braces of this one, so
  that regions do not overlap.
\<close>

theorem region_recognition:
  "(pattern_match t = Some (b, r) \<longleftrightarrow>
      t = ''{{'' @ b @ ''}}'' @ r \<and> CHR ''}'' \<notin> set b) \<and>
   (pattern_search s = Some (pre, body, rest) \<longleftrightarrow>
      s = pre @ ''{{'' @ body @ ''}}'' @ rest \<and> CHR ''}'' \<notin> set body \<and>
      (\<forall>i<length pre. pattern_match (drop i s) = None)) \<and>
   (pattern_search s = Some (pre, body, rest) \<longrightarrow>
      eval_template X s names w =
        (case repl X names body w of
           (Inl e, w1) \<Rightarrow> (Inl e, w1)
         | (Inr out1, w1) \<Rightarrow>
             (case eval_template X rest names w1 of
                (Inl e, w2) \<Rightarrow> (Inl e, w2)
              | (Inr out2, w2) \<Rightarrow> (Inr (pre @ out1 @ out2), w2))))"
  by (intro conjI impI pattern_match_iff pattern_search_iff eval_template_match)

theorem region_recognition_witness:
  "pattern_match ''{{x}}cd{{y}}'' = Some (''x'', ''cd{{y}}'') \<and>
   pattern_search ''ab{{x}}cd{{y}}'' = Some (''ab'', ''x'', ''cd{{y}}'') \<and>
   ''ab{{x}}cd{{y}}'' = ''ab'' @ ''{{'' @ ''x'' @ ''}}'' @ ''cd{{y}}'' \<and>
   CHR ''}'' \<notin> set ''x'' \<and>
   pattern_match (drop 0 ''ab{{x}}cd{{y}}'') = None \<and>
   pattern_match (drop 1 ''ab{{x}}cd{{y}}'') = None \<and>
   fst (eval_template demo_env ''ab{{True}}cd{{None}}'' None (empty_heap, 0)) =
     Inr ''abTruecdNone''"
proof -
  have "''ab{{x}}cd{{y}}'' = ''ab'' @ ''{{'' @ ''x'' @ ''}}'' @ ''cd{{y}}'' \<and>
      CHR ''}'' \<notin> set ''x'' \<and>
      (\<forall>i<length ''ab''. pattern_match (drop i ''ab{{x}}cd{{y}}'') = None)"
    by (simp add: All_less_Suc)
  then have found: "pattern_search ''ab{{x}}cd{{y}}'' = Some (''ab'', ''x'', ''cd{{y}}'')"
    by (rule region_recognition [THEN conjunct2, THEN conjunct1, THEN iffD2])
  have o1: "pattern_match ''{{x}}cd{{y}}'' = Some (''x'', ''cd{{y}}'')"
    by code_simp
  have o2: "''ab{{x}}cd{{y}}'' = ''ab'' @ ''{{'' @ ''x'' @ ''}}'' @ ''cd{{y}}''"
    by code_simp
  have o3: "CHR ''}'' \<notin> set ''x''"
    by code_simp
  have o4: "pattern_match (drop 0 ''ab{{x}}cd{{y}}'') = None"
    by code_simp
  have o5: "pattern_match (drop 1 ''ab{{x}}cd{{y}}'') = None"
    by code_simp
  have o6: "fst (eval_template demo_env ''ab{{True}}cd{{None}}'' None (empty_heap, 0)) =
      Inr ''abTruecdNone''"
    by code_simp
  show ?thesis
    by (intro conjI found o1 o2 o3 o4 o5 o6)
qed

text \<open>
  C4 as stated fails: in \<^verbatim>\<open>{{a}b}}\<close> a first \<^verbatim>\<open>{{\<close> is followed by a later
  \<^verbatim>\<open>}}\<close> and the span between them, \<^verbatim>\<open>a}b\<close>, does not contain \<^verbatim>\<open>}}\<close>; the
  pattern matches nowhere, and the template is returned as it is.
\<close>

theorem inner_brace_counterexample:
  "spec_pattern_match ''{{a}b}}'' = Some (''a}b'', []) \<and>
   pattern_search ''{{a}b}}'' = None \<and>
   fst (eval_template demo_env ''{{a}b}}'' None (empty_heap, 0)) = Inr ''{{a}b}}''"
  by code_simp

section \<open>Templates without a region, and failing expressions\<close>

text \<open>
  C6. When the pattern matches nowhere in \<open>t\<close>, \<^verbatim>\<open>eval_template\<close> returns \<open>t\<close>,
  whatever the evaluator and the names are, and the world is as before: the clock was
  not read and no dictionary was built, so \<^verbatim>\<open>eval_expression\<close> was not called. The
  list of evaluations of the render is empty.
\<close>

theorem eval_template_without_regions:
  "pattern_search t = None \<Longrightarrow>
     eval_template X t names w = (Inr t, w) \<and> eval_each X names (regions t) w = []"
  by (simp add: eval_template_no_match regions_no_match)

theorem eval_template_without_regions_witness:
  "pattern_search ''Filter-{2024} }}'' = None \<and>
   eval_template demo_env ''Filter-{2024} }}'' None (empty_heap, 0)
     = (Inr ''Filter-{2024} }}'', (empty_heap, 0))"
  using eval_template_without_regions [of "''Filter-{2024} }}''" demo_env None "(empty_heap, 0)"]
  by simp

text \<open>
  C5. When the evaluation of some embedded expression fails, \<^verbatim>\<open>eval_template\<close> fails:
  its result is the error of the first embedded expression that fails, and not a
  string, so nothing of the output built so far is returned.
\<close>

theorem eval_template_propagates_failure:
  "\<exists>r\<in>set (eval_each X names (regions s) w). isl r \<Longrightarrow>
     \<exists>e. find isl (eval_each X names (regions s) w) = Some (Inl e) \<and>
         fst (eval_template X s names w) = Inl e"
proof -
  assume "\<exists>r\<in>set (eval_each X names (regions s) w). isl r"
  then have "find isl (eval_each X names (regions s) w) \<noteq> None"
    by (auto simp: find_None_iff)
  then obtain r where f: "find isl (eval_each X names (regions s) w) = Some r"
    by (cases "find isl (eval_each X names (regions s) w)") auto
  then have "isl r" by (auto simp: find_Some_iff)
  then obtain e where r: "r = Inl e" by (cases r) auto
  from f r have "fst (eval_template X s names w) = Inl e"
    by (simp add: eval_template_by_regions)
  with f r show ?thesis by simp
qed

theorem eval_template_propagates_failure_witness:
  "eval_each demo_env None (regions ''a{{True}}b{{nope}}c{{now}}'') (empty_heap, 0) =
     [Inr (PBool True), Inl NameNotDefined, Inr (PDatetime (demo_now 2))] \<and>
   fst (eval_template demo_env ''a{{True}}b{{nope}}c{{now}}'' None (empty_heap, 0)) =
     Inl NameNotDefined"
proof -
  let ?rs = "eval_each demo_env None (regions ''a{{True}}b{{nope}}c{{now}}'') (empty_heap, 0)"
  have rs: "?rs = [Inr (PBool True), Inl NameNotDefined, Inr (PDatetime (demo_now 2))]"
    by code_simp
  then have "\<exists>r\<in>set ?rs. isl r" by simp
  from eval_template_propagates_failure [OF this]
  obtain e where e: "find isl ?rs = Some (Inl e)"
    and t: "fst (eval_template demo_env ''a{{True}}b{{nope}}c{{now}}'' None (empty_heap, 0)) = Inl e"
    by auto
  from e rs have "e = NameNotDefined" by simp
  with t rs show ?thesis by simp
qed

section \<open>The dictionaries handed to \<^verbatim>\<open>simple_eval\<close>\<close>

lemma map_of_rev_distinct:
  "distinct (map fst xs) \<Longrightarrow> map_of (rev xs) = map_of xs"
proof (induction xs)
  case Nil
  then show ?case by simp
next
  case (Cons x xs)
  obtain k v where x: "x = (k, v)" by (cases x)
  from Cons.prems x have k: "k \<notin> fst ` set xs" and d: "distinct (map fst xs)"
    by auto
  from k have "dom [k \<mapsto> v] \<inter> dom (map_of xs) = {}"
    by (simp add: dom_map_of_conv_image_fst)
  then have "[k \<mapsto> v] ++ map_of xs = map_of xs ++ [k \<mapsto> v]"
    by (rule map_add_comm)
  with Cons.IH [OF d] x show ?case by simp
qed

lemma map_of_dict_merge:
  "map_of (dict_merge d e) = map_of d ++ map_of (rev e)"
  unfolding dict_merge_def
proof (induction e arbitrary: d)
  case Nil
  then show ?case by simp
next
  case (Cons x xs)
  obtain k v where x: "x = (k, v)" by (cases x)
  have "map_of (fold (\<lambda>(k, v). AList.update k v) xs (AList.update k v d)) =
        map_of (AList.update k v d) ++ map_of (rev xs)"
    by (rule Cons.IH)
  then show ?case
    by (simp add: x update_conv' map_add_upd_left)
qed

lemma dict_merge_Nil: "dict_merge d [] = d"
  by (simp add: dict_merge_def)

lemma build_registry_addrs:
  "build_registry X names k h = (f, c, h') \<Longrightarrow>
     f = next_addr h \<and> c = Suc (next_addr h) \<and> next_addr h' = Suc (Suc (next_addr h))"
  by (auto simp: build_registry_def dict_copy_def dict_update_def Let_def
      split: option.splits if_splits)

lemma build_registry_frame:
  "build_registry X names k h = (f, c, h') \<Longrightarrow> a < next_addr h \<Longrightarrow> objs h' a = objs h a"
  by (auto simp: build_registry_def dict_copy_def dict_update_def Let_def
      split: option.splits if_splits)

lemma build_registry_functions:
  "build_registry X names k h = (f, c, h') \<Longrightarrow>
     objs h' f = Some (dict_merge (DEFAULT_FUNCTIONS X) domain_functions)"
  by (auto simp: build_registry_def dict_copy_def dict_update_def Let_def
      split: option.splits if_splits)

lemma build_registry_names_None:
  "build_registry X None k h = (f, c, h') \<Longrightarrow>
     objs h' c = Some (dict_merge (DEFAULT_NAMES X) [(''now'', PDatetime (now X k))])"
  by (auto simp: build_registry_def dict_copy_def dict_update_def Let_def
      split: option.splits if_splits)

lemma build_registry_names_Some:
  "build_registry X (Some a) k h = (f, c, h') \<Longrightarrow> a < next_addr h \<Longrightarrow> objs h a = Some d \<Longrightarrow>
     objs h' c =
       Some (dict_merge (dict_merge (DEFAULT_NAMES X) [(''now'', PDatetime (now X k))]) d)"
  by (auto simp: build_registry_def dict_copy_def dict_update_def Let_def dict_merge_Nil
      split: option.splits if_splits)


lemma distinct_domain_functions: "distinct (map fst domain_functions)"
  by (simp add: domain_functions_def)

text \<open>
  C8, as amended. The names dictionary handed to the evaluator is \<^verbatim>\<open>DEFAULT_NAMES\<close>,
  then \<^verbatim>\<open>now\<close>, then the caller's dictionary, merged in this order: every binding
  of the caller's dictionary, one for \<^verbatim>\<open>now\<close> included, is the binding of its name
  there. The functions dictionary is another object: it is \<^verbatim>\<open>DEFAULT_FUNCTIONS\<close> and
  then the ten functions of the module, and the caller's dictionary is not merged into
  it.
\<close>

theorem registry_merge_order:
  "a < next_addr h \<Longrightarrow> objs h a = Some d \<Longrightarrow> distinct (map fst d) \<Longrightarrow>
   build_registry X (Some a) k h = (f, c, h') \<Longrightarrow>
     (\<exists>m. objs h' c = Some m \<and>
          map_of m = (map_of (DEFAULT_NAMES X))(''now'' \<mapsto> PDatetime (now X k)) ++ map_of d \<and>
          (\<forall>n v. (n, v) \<in> set d \<longrightarrow> map_of m n = Some v)) \<and>
     (\<exists>fm. objs h' f = Some fm \<and>
          map_of fm = map_of (DEFAULT_FUNCTIONS X) ++ map_of domain_functions) \<and>
     f \<noteq> c \<and> f \<noteq> a \<and> c \<noteq> a"
proof -
  assume a: "a < next_addr h" and d: "objs h a = Some d" and dist: "distinct (map fst d)"
    and b: "build_registry X (Some a) k h = (f, c, h')"
  let ?m = "dict_merge (dict_merge (DEFAULT_NAMES X) [(''now'', PDatetime (now X k))]) d"
  let ?fm = "dict_merge (DEFAULT_FUNCTIONS X) domain_functions"
  have m: "objs h' c = Some ?m"
    using b a d by (rule build_registry_names_Some)
  have mm: "map_of ?m = (map_of (DEFAULT_NAMES X))(''now'' \<mapsto> PDatetime (now X k)) ++ map_of d"
    by (simp add: map_of_dict_merge map_of_rev_distinct [OF dist])
  have wins: "map_of ?m n = Some v" if "(n, v) \<in> set d" for n v
  proof -
    from that dist have "map_of d n = Some v" by simp
    then show ?thesis by (simp add: mm map_add_Some_iff)
  qed
  have fm: "objs h' f = Some ?fm"
    using b by (rule build_registry_functions)
  have fmm: "map_of ?fm = map_of (DEFAULT_FUNCTIONS X) ++ map_of domain_functions"
    by (simp add: map_of_dict_merge map_of_rev_distinct [OF distinct_domain_functions])
  from build_registry_addrs [OF b] a have ne: "f \<noteq> c \<and> f \<noteq> a \<and> c \<noteq> a"
    by simp
  from m mm wins fm fmm ne show ?thesis
    by (intro conjI exI [of _ ?m] exI [of _ ?fm] allI impI) simp_all
qed

theorem registry_merge_order_witness:
  "(0::nat) < next_addr (caller_heap [(''now'', PInt 7), (''filter'', PStr ''temp-123'')]) \<and>
   objs (caller_heap [(''now'', PInt 7), (''filter'', PStr ''temp-123'')]) 0 =
     Some [(''now'', PInt 7), (''filter'', PStr ''temp-123'')] \<and>
   distinct (map fst [(''now'', PInt 7), (''filter'', PStr ''temp-123'')]) \<and>
   (\<exists>m. objs (snd (snd (build_registry demo_env (Some 0) 0
              (caller_heap [(''now'', PInt 7), (''filter'', PStr ''temp-123'')])))) 2 = Some m \<and>
        map_of m ''now'' = Some (PInt 7) \<and>
        map_of m ''filter'' = Some (PStr ''temp-123'') \<and>
        map_of m ''True'' = Some (PBool True))"
proof -
  let ?d = "[(''now'', PInt 7), (''filter'', PStr ''temp-123'')]"
  let ?h = "caller_heap ?d"
  have p1: "(0::nat) < next_addr ?h" by code_simp
  have p2: "objs ?h 0 = Some ?d" by code_simp
  have p3: "distinct (map fst ?d)" by code_simp
  obtain f c h' where b: "build_registry demo_env (Some 0) 0 ?h = (f, c, h')"
    by (cases "build_registry demo_env (Some 0) 0 ?h")
  have c: "c = 2" using build_registry_addrs [OF b] by (simp add: caller_heap_def)
  from registry_merge_order [OF p1 p2 p3 b]
  obtain m where m: "objs h' c = Some m"
    and mm: "map_of m = (map_of (DEFAULT_NAMES demo_env))(''now'' \<mapsto> PDatetime (now demo_env 0)) ++ map_of ?d"
    by auto
  have "map_of m ''now'' = Some (PInt 7) \<and> map_of m ''filter'' = Some (PStr ''temp-123'') \<and>
        map_of m ''True'' = Some (PBool True)"
    unfolding mm by (simp add: demo_env_def map_add_def)
  with m c b p1 p2 p3 show ?thesis by auto
qed

text \<open>
  C8 as stated fails on a name of a function: with \<^verbatim>\<open>{'start': 7}\<close> from the caller,
  the functions dictionary still binds \<^verbatim>\<open>start\<close> to \<^verbatim>\<open>_start\<close>; the caller's
  \<open>7\<close> is in the names dictionary only.
\<close>

theorem registry_function_collision_counterexample:
  "(case build_registry demo_env (Some 0) 0 (caller_heap [(''start'', PInt 7)]) of
      (f, c, h') \<Rightarrow>
        (case objs h' f of None \<Rightarrow> None | Some fm \<Rightarrow> map_of fm ''start'') =
          Some (PFunc ''_start'') \<and>
        (case objs h' c of None \<Rightarrow> None | Some m \<Rightarrow> map_of m ''start'') = Some (PInt 7))"
  by code_simp


section \<open>The caller's dictionary\<close>

lemma eval_expression_clock:
  "eval_expression X s names (h, k) = (r, (h', k')) \<Longrightarrow> k' = Suc k"
  by (auto simp: eval_expression_def split: prod.splits)

lemma eval_expression_frame:
  assumes fr: "evaluator_frame X"
    and ev: "eval_expression X s names (h, k) = (r, (h', k'))"
  shows "next_addr h \<le> next_addr h' \<and> (\<forall>a<next_addr h. objs h' a = objs h a)"
proof -
  obtain f c h1 where b: "build_registry X names k h = (f, c, h1)"
    by (cases "build_registry X names k h")
  from ev b have se: "simple_eval X s f c h1 = (r, h')"
    by (auto simp: eval_expression_def split: prod.splits)
  note ad = build_registry_addrs [OF b]
  from fr have mono: "next_addr h1 \<le> next_addr (snd (simple_eval X s f c h1))"
    and keep: "\<And>a. a < next_addr h1 \<and> a \<noteq> f \<and> a \<noteq> c \<Longrightarrow>
          objs (snd (simple_eval X s f c h1)) a = objs h1 a"
    unfolding evaluator_frame_def by blast+
  from mono se ad have "next_addr h \<le> next_addr h'" by simp
  moreover have "objs h' a = objs h a" if "a < next_addr h" for a
  proof -
    from that ad have "a < next_addr h1 \<and> a \<noteq> f \<and> a \<noteq> c" by simp
    from keep [OF this] se have "objs h' a = objs h1 a" by simp
    also from b that have "objs h1 a = objs h a" by (rule build_registry_frame)
    finally show ?thesis .
  qed
  ultimately show ?thesis by blast
qed

lemma repl_frame:
  assumes fr: "evaluator_frame X"
    and ev: "repl X names body (h, k) = (r, (h', k'))"
  shows "next_addr h \<le> next_addr h' \<and> (\<forall>a<next_addr h. objs h' a = objs h a)"
proof -
  obtain r0 where "eval_expression X body names (h, k) = (r0, (h', k'))"
    using ev by (auto simp: repl_def split: prod.splits sum.splits)
  with fr show ?thesis by (rule eval_expression_frame)
qed

lemma eval_template_frame:
  assumes fr: "evaluator_frame X"
  shows "eval_template X s names (h, k) = (r, (h', k')) \<Longrightarrow>
     next_addr h \<le> next_addr h' \<and> (\<forall>a<next_addr h. objs h' a = objs h a)"
proof (induction "length s" arbitrary: s h k r h' k' rule: less_induct)
  case less
  show ?case
  proof (cases "pattern_search s")
    case None
    with less.prems show ?thesis
      by (simp add: eval_template_no_match)
  next
    case (Some m)
    then obtain pre body rest where m: "pattern_search s = Some (pre, body, rest)"
      by (cases m) auto
    have shorter: "length rest < length s"
      using m by (rule pattern_search_shorter)
    obtain r1 h1 k1 where rp: "repl X names body (h, k) = (r1, (h1, k1))"
      by (cases "repl X names body (h, k)") auto
    note f1 = repl_frame [OF fr rp]
    show ?thesis
    proof (cases r1)
      case (Inl e)
      with m rp less.prems have "h' = h1"
        by (simp add: eval_template_match)
      with f1 show ?thesis by simp
    next
      case (Inr out1)
      obtain r2 h2 k2 where et: "eval_template X rest names (h1, k1) = (r2, (h2, k2))"
        by (cases "eval_template X rest names (h1, k1)") auto
      note f2 = less.hyps [OF shorter et]
      from m rp Inr et less.prems have "h' = h2"
        by (cases r2) (simp_all add: eval_template_match)
      with f1 f2 show ?thesis by auto
    qed
  qed
qed

text \<open>
  C9. \<^verbatim>\<open>eval_expression\<close> and \<^verbatim>\<open>eval_template\<close> leave the dictionary the caller
  passed with the bindings it had, whether they return a value or fail: they merge it
  into a copy and hand the evaluator the copy. The evaluator is asked to change no
  dictionary but the two it is handed.
\<close>

theorem caller_mapping_unchanged:
  "evaluator_frame X \<Longrightarrow> a < next_addr h \<Longrightarrow>
     objs (fst (snd (eval_expression X e (Some a) (h, k)))) a = objs h a \<and>
     objs (fst (snd (eval_template X t (Some a) (h, k)))) a = objs h a"
proof -
  assume fr: "evaluator_frame X" and a: "a < next_addr h"
  obtain r1 h1 k1 where e1: "eval_expression X e (Some a) (h, k) = (r1, (h1, k1))"
    by (cases "eval_expression X e (Some a) (h, k)") auto
  obtain r2 h2 k2 where e2: "eval_template X t (Some a) (h, k) = (r2, (h2, k2))"
    by (cases "eval_template X t (Some a) (h, k)") auto
  from eval_expression_frame [OF fr e1] a have "objs h1 a = objs h a" by simp
  moreover from eval_template_frame [OF fr e2] a have "objs h2 a = objs h a" by simp
  ultimately show ?thesis using e1 e2 by simp
qed

lemma evaluator_frame_demo: "evaluator_frame demo_env"
  by (simp add: evaluator_frame_def demo_env_def name_eval_def split: option.splits)

theorem caller_mapping_unchanged_witness:
  "evaluator_frame demo_env \<and>
   (0::nat) < next_addr (caller_heap [(''filter'', PStr ''temp-123'')]) \<and>
   objs (fst (snd (eval_expression demo_env ''filter'' (Some 0)
           (caller_heap [(''filter'', PStr ''temp-123'')], 0)))) 0 =
     Some [(''filter'', PStr ''temp-123'')] \<and>
   objs (fst (snd (eval_template demo_env ''{{filter}} {{nope}}'' (Some 0)
           (caller_heap [(''filter'', PStr ''temp-123'')], 0)))) 0 =
     Some [(''filter'', PStr ''temp-123'')] \<and>
   fst (eval_expression demo_env ''filter'' (Some 0)
           (caller_heap [(''filter'', PStr ''temp-123'')], 0)) = Inr (PStr ''temp-123'') \<and>
   fst (eval_template demo_env ''{{filter}} {{nope}}'' (Some 0)
           (caller_heap [(''filter'', PStr ''temp-123'')], 0)) = Inl NameNotDefined"
proof -
  let ?h = "caller_heap [(''filter'', PStr ''temp-123'')]"
  have p: "(0::nat) < next_addr ?h" by code_simp
  have o: "objs ?h 0 = Some [(''filter'', PStr ''temp-123'')]" by code_simp
  have v1: "fst (eval_expression demo_env ''filter'' (Some 0) (?h, 0)) = Inr (PStr ''temp-123'')"
    by code_simp
  have v2: "fst (eval_template demo_env ''{{filter}} {{nope}}'' (Some 0) (?h, 0)) = Inl NameNotDefined"
    by code_simp
  from caller_mapping_unchanged [OF evaluator_frame_demo p, of "''filter''" 0 "''{{filter}} {{nope}}''"]
  show ?thesis
    by (simp add: evaluator_frame_demo p o v1 v2)
qed


section \<open>The clock reading bound to \<^verbatim>\<open>now\<close>\<close>

lemma eval_each_nth:
  assumes fr: "names = None \<or> evaluator_frame X"
  shows "caller_kept names d h \<Longrightarrow> i < length bs \<Longrightarrow>
     \<exists>h1. caller_kept names d h1 \<and>
       eval_each X names bs (h, k) ! i = fst (eval_expression X (bs ! i) names (h1, k + i))"
proof (induction bs arbitrary: h k i)
  case Nil
  then show ?case by simp
next
  case (Cons b bs)
  obtain r h' k' where ev: "eval_expression X b names (h, k) = (r, (h', k'))"
    by (cases "eval_expression X b names (h, k)") auto
  have k': "k' = Suc k" using ev by (rule eval_expression_clock)
  show ?case
  proof (cases i)
    case 0
    with Cons.prems(1) ev show ?thesis
      by (intro exI [of _ h]) simp
  next
    case (Suc j)
    have kept: "caller_kept names d h'"
    proof (cases names)
      case None
      then show ?thesis by (simp add: caller_kept_def)
    next
      case (Some a)
      with fr have "evaluator_frame X" by simp
      from eval_expression_frame [OF this ev] Cons.prems(1) Some
      show ?thesis by (auto simp: caller_kept_def)
    qed
    from Suc Cons.prems(2) have "j < length bs" by simp
    from Cons.IH [OF kept this, of k']
    obtain h1 where "caller_kept names d h1"
      and "eval_each X names bs (h', k') ! j = fst (eval_expression X (bs ! j) names (h1, k' + j))"
      by blast
    with ev k' Suc show ?thesis
      by (intro exI [of _ h1]) simp
  qed
qed

lemma registry_binds_now:
  assumes b: "build_registry X names k h = (f, c, h')"
    and free: "names = None \<or> (\<exists>a. names = Some a \<and> caller_kept names d h \<and> ''now'' \<notin> fst ` set d)"
  shows "\<exists>m. objs h' c = Some m \<and> map_of m ''now'' = Some (PDatetime (now X k))"
proof (cases names)
  case None
  with b have "objs h' c = Some (dict_merge (DEFAULT_NAMES X) [(''now'', PDatetime (now X k))])"
    by (simp add: build_registry_names_None)
  then show ?thesis by (simp add: map_of_dict_merge)
next
  case (Some a)
  with free have a: "a < next_addr h" and d: "objs h a = Some d" and n: "''now'' \<notin> fst ` set d"
    by (auto simp: caller_kept_def)
  from n have none: "map_of (rev d) ''now'' = None"
    by (simp add: map_of_eq_None_iff)
  from b Some have "build_registry X (Some a) k h = (f, c, h')" by simp
  from build_registry_names_Some [OF this a d] none show ?thesis
    by (simp add: map_of_dict_merge map_add_def)
qed

text \<open>
  C1, as amended. The clock is read once for each embedded expression, when that
  expression is evaluated, and not once for the render: the \<open>i\<close>-th region of the
  template (from \<open>0\<close>) is evaluated by \<^verbatim>\<open>simple_eval\<close> with a names dictionary that
  binds \<^verbatim>\<open>now\<close> to the reading number \<open>k + i\<close>, where \<open>k\<close> readings were taken
  before the render. This holds with no dictionary from the caller, and with one that
  does not bind \<^verbatim>\<open>now\<close> when the evaluator keeps to the two dictionaries it is
  handed. Within one embedded expression \<^verbatim>\<open>now\<close> is one value. The result of the
  render is made of these evaluations.
\<close>

theorem now_read_per_expression:
  "i < length (regions s) \<Longrightarrow>
   names = None \<or>
     evaluator_frame X \<and> caller_kept names d h \<and> ''now'' \<notin> fst ` set d \<Longrightarrow>
     (\<exists>h1 f c h2 m.
        build_registry X names (k + i) h1 = (f, c, h2) \<and>
        eval_each X names (regions s) (h, k) ! i = fst (simple_eval X (regions s ! i) f c h2) \<and>
        objs h2 c = Some m \<and> map_of m ''now'' = Some (PDatetime (now X (k + i)))) \<and>
     fst (eval_template X s names (h, k)) =
       (case find isl (eval_each X names (regions s) (h, k)) of
          Some r \<Rightarrow> Inl (projl r)
        | None \<Rightarrow>
            Inr (substitute s
                  (map (\<lambda>r. py_str X (projr r)) (eval_each X names (regions s) (h, k)))))"
proof -
  assume i: "i < length (regions s)"
    and c: "names = None \<or>
     evaluator_frame X \<and> caller_kept names d h \<and> ''now'' \<notin> fst ` set d"
  from c have fr: "names = None \<or> evaluator_frame X" by auto
  from c have kept: "caller_kept names d h" by (auto simp: caller_kept_def)
  from eval_each_nth [OF fr kept i, of k]
  obtain h1 where k1: "caller_kept names d h1"
    and e: "eval_each X names (regions s) (h, k) ! i =
            fst (eval_expression X (regions s ! i) names (h1, k + i))"
    by blast
  obtain f c' h2 where b: "build_registry X names (k + i) h1 = (f, c', h2)"
    by (cases "build_registry X names (k + i) h1")
  from b have "fst (eval_expression X (regions s ! i) names (h1, k + i)) =
      fst (simple_eval X (regions s ! i) f c' h2)"
    by (simp add: eval_expression_def split: prod.splits)
  with e have e': "eval_each X names (regions s) (h, k) ! i =
      fst (simple_eval X (regions s ! i) f c' h2)"
    by simp
  from c k1 have "names = None \<or> (\<exists>a. names = Some a \<and> caller_kept names d h1 \<and> ''now'' \<notin> fst ` set d)"
    by (cases names) auto
  from registry_binds_now [OF b this]
  obtain m where m: "objs h2 c' = Some m" "map_of m ''now'' = Some (PDatetime (now X (k + i)))"
    by blast
  from b e' m have "\<exists>h1 f c h2 m.
        build_registry X names (k + i) h1 = (f, c, h2) \<and>
        eval_each X names (regions s) (h, k) ! i = fst (simple_eval X (regions s ! i) f c h2) \<and>
        objs h2 c = Some m \<and> map_of m ''now'' = Some (PDatetime (now X (k + i)))"
    by blast
  then show ?thesis
    by (simp add: eval_template_by_regions)
qed


theorem now_read_per_expression_witness:
  "1 < length (regions ''{{now}}{{now}}'') \<and>
   (\<exists>h1 f c h2 m.
      build_registry demo_env None (0 + 1) h1 = (f, c, h2) \<and>
      eval_each demo_env None (regions ''{{now}}{{now}}'') (empty_heap, 0) ! 1 =
        fst (simple_eval demo_env (regions ''{{now}}{{now}}'' ! 1) f c h2) \<and>
      objs h2 c = Some m \<and> map_of m ''now'' = Some (PDatetime (now demo_env (0 + 1)))) \<and>
   eval_each demo_env None (regions ''{{now}}{{now}}'') (empty_heap, 0) =
     [Inr (PDatetime (demo_now 0)), Inr (PDatetime (demo_now 1))] \<and>
   evaluator_frame demo_env \<and>
   caller_kept (Some 0) [(''filter'', PStr ''temp-123'')]
     (caller_heap [(''filter'', PStr ''temp-123'')]) \<and>
   ''now'' \<notin> fst ` set [(''filter'', PStr ''temp-123'')] \<and>
   (\<exists>h1 f c h2 m.
      build_registry demo_env (Some 0) (0 + 1) h1 = (f, c, h2) \<and>
      eval_each demo_env (Some 0) (regions ''{{now}}{{now}}'')
          (caller_heap [(''filter'', PStr ''temp-123'')], 0) ! 1 =
        fst (simple_eval demo_env (regions ''{{now}}{{now}}'' ! 1) f c h2) \<and>
      objs h2 c = Some m \<and> map_of m ''now'' = Some (PDatetime (now demo_env (0 + 1))))"
proof -
  let ?s = "''{{now}}{{now}}''"
  let ?d = "[(''filter'', PStr ''temp-123'')]"
  have p: "1 < length (regions ?s)" by code_simp
  have v: "eval_each demo_env None (regions ?s) (empty_heap, 0) =
     [Inr (PDatetime (demo_now 0)), Inr (PDatetime (demo_now 1))]"
    by code_simp
  have k: "caller_kept (Some 0) ?d (caller_heap ?d)" by code_simp
  have n: "''now'' \<notin> fst ` set ?d" by code_simp
  have c1: "None = None \<or>
      evaluator_frame demo_env \<and> caller_kept None ?d empty_heap \<and> ''now'' \<notin> fst ` set ?d"
    by simp
  have c2: "Some 0 = None \<or>
      evaluator_frame demo_env \<and> caller_kept (Some 0) ?d (caller_heap ?d) \<and>
      ''now'' \<notin> fst ` set ?d"
    using evaluator_frame_demo k n by simp
  note w1 = now_read_per_expression [OF p c1, of 0, THEN conjunct1]
  note w2 = now_read_per_expression [OF p c2, of 0, THEN conjunct1]
  show ?thesis
    by (intro conjI p w1 w2 v evaluator_frame_demo k n)
qed

text \<open>
  C1 as stated fails: with a clock that moves between two readings, the two regions of
  \<^verbatim>\<open>{{now}}{{now}}\<close> see two values of \<^verbatim>\<open>now\<close>.
\<close>

theorem now_differs_between_regions:
  "fst (eval_template demo_env ''{{now}}{{now}}'' None (empty_heap, 0)) =
     Inr ''2024-01-01 00:00:002024-01-01 00:00:01'' \<and>
   eval_each demo_env None (regions ''{{now}}{{now}}'') (empty_heap, 0) =
     [Inr (PDatetime (demo_now 0)), Inr (PDatetime (demo_now 1))] \<and>
   demo_now 0 \<noteq> demo_now 1"
  by code_simp

end
